theory Spec2Isabelle
  imports Main "HOL-Library.Word"
begin

unbundle bit_operations_syntax

section \<open>Strings, numbers and identifiers of the framework\<close>

text \<open>
  A framework \<open>String\<close> is modelled as a HOL \<open>string\<close> (a list of code units), an
  \<open>int64\<close> as a \<open>64 word\<close> read with \<open>sint\<close>, and a \<open>Uuid\<close> as the list of its
  bytes (the framework keeps an array of sixteen).
\<close>

type_synonym Identifier = string
type_synonym int64 = "64 word"
type_synonym Uuid = "8 word list"

definition isDigit :: "char \<Rightarrow> bool" where
  "isDigit c = (48 \<le> (of_char c :: nat) \<and> (of_char c :: nat) \<le> 57)"

definition isLower :: "char \<Rightarrow> bool" where
  "isLower c = (97 \<le> (of_char c :: nat) \<and> (of_char c :: nat) \<le> 122)"

definition isUpper :: "char \<Rightarrow> bool" where
  "isUpper c = (65 \<le> (of_char c :: nat) \<and> (of_char c :: nat) \<le> 90)"

text \<open>Blank, tab, line feed, vertical tab, form feed and carriage return.\<close>

definition isWhitespace :: "char \<Rightarrow> bool" where
  "isWhitespace c = ((of_char c :: nat) = 32 \<or> (9 \<le> (of_char c :: nat) \<and> (of_char c :: nat) \<le> 13))"

subsection \<open>\<open>String(int64)\<close>: the decimal text of a signed number\<close>

definition decimalDigit :: "nat \<Rightarrow> char" where
  "decimalDigit d = ''0123456789'' ! d"

function printDigits :: "nat \<Rightarrow> string" where
  "printDigits n = (if n < 10 then [decimalDigit n]
                    else printDigits (n div 10) @ [decimalDigit (n mod 10)])"
  by pat_completeness auto
termination
  by (relation "measure (\<lambda>n. n)") auto

declare printDigits.simps [simp del]

text \<open>
  A negative number is printed as a minus sign followed by the digits of its magnitude,
  which the framework computes in the unsigned type so that the least \<open>int64\<close> is
  covered as well.
\<close>

definition StringOfInt64 :: "int64 \<Rightarrow> string" where
  "StringOfInt64 n = (if 0 \<le> sint n then printDigits (nat (sint n))
                      else CHR ''-'' # printDigits (nat (- sint n)))"

subsection \<open>\<open>String::getLargeIntValue\<close>\<close>

text \<open>
  Leading white space is skipped, one minus sign is accepted, and digits are accumulated
  in the unsigned 64-bit type until the first character that is not a digit; the sum is
  negated for a minus sign. Text with no digits gives 0.
\<close>

fun readDigits :: "int64 \<Rightarrow> string \<Rightarrow> int64" where
  "readDigits v [] = v"
| "readDigits v (c # cs) =
     (if isDigit c then readDigits (v * 10 + word_of_nat (of_char c - 48)) cs else v)"

definition getLargeIntValue :: "string \<Rightarrow> int64" where
  "getLargeIntValue text =
     (case dropWhile isWhitespace text of
        [] \<Rightarrow> 0
      | c # cs \<Rightarrow> (if c = CHR ''-'' then - readDigits 0 cs else readDigits 0 (c # cs)))"

subsection \<open>\<open>Uuid::toString\<close> and the assignment of a \<open>String\<close> to a \<open>Uuid\<close>\<close>

definition hexDigit :: "nat \<Rightarrow> char" where
  "hexDigit d = ''0123456789abcdef'' ! d"

text \<open>\<open>String::toHexString\<close> with group size 0: two lower-case digits per byte.\<close>

fun toHexString :: "8 word list \<Rightarrow> string" where
  "toHexString [] = []"
| "toHexString (b # bs) =
     hexDigit (unat (drop_bit 4 b)) # hexDigit (unat (b AND 15)) # toHexString bs"

text \<open>
  \<open>MemoryBlock::loadFromHexString\<close> reads two digit characters per byte. Characters that
  are neither digits nor letters are skipped, every letter counts as a digit (its
  distance from \<open>a\<close> or \<open>A\<close> plus ten), and the end of the text ends the block,
  dropping a half-read byte.
\<close>

fun nextHexDigit :: "string \<Rightarrow> (nat \<times> string) option" where
  "nextHexDigit [] = None"
| "nextHexDigit (c # cs) =
     (if isDigit c then Some (of_char c - 48, cs)
      else if isLower c then Some (of_char c - 87, cs)
      else if isUpper c then Some (of_char c - 55, cs)
      else nextHexDigit cs)"

function loadFromHexString :: "string \<Rightarrow> 8 word list" where
  "loadFromHexString s =
     (case nextHexDigit s of
        None \<Rightarrow> []
      | Some (hi, s1) \<Rightarrow>
          (case nextHexDigit s1 of
             None \<Rightarrow> []
           | Some (lo, s2) \<Rightarrow> word_of_nat (push_bit 4 hi OR lo) # loadFromHexString s2))"
  by pat_completeness auto
termination
proof (relation "measure length", goal_cases)
  case 1
  show ?case by simp
next
  case (2 s x2 hi s1 y2 lo s2)
  have shorter: "length r < length t" if "nextHexDigit t = Some (d, r)" for t d r
    using that by (induction t) (auto split: if_splits)
  from 2 have "length s2 < length s1" and "length s1 < length s"
    by (auto dest: shorter)
  then show ?case by simp
qed

declare loadFromHexString.simps [simp del]

definition UuidToString :: "Uuid \<Rightarrow> string" where
  "UuidToString u = toHexString u"

text \<open>
  Assigning text to a \<open>Uuid\<close> loads the text as hexadecimal, pads the block with zero
  bytes up to sixteen, and copies the first sixteen bytes.
\<close>

definition UuidOfString :: "string \<Rightarrow> Uuid" where
  "UuidOfString s =
     (let mb = loadFromHexString s
      in take 16 (mb @ replicate (16 - length mb) 0))"

section \<open>Trees of named elements with attributes\<close>

datatype Element =
  Element (tagName: Identifier) (attributes: "(Identifier \<times> string) list") (children: "Element list")

text \<open>Setting an attribute replaces the value of an existing name, or appends a new pair.\<close>

fun setAttr :: "(Identifier \<times> string) list \<Rightarrow> Identifier \<Rightarrow> string \<Rightarrow> (Identifier \<times> string) list" where
  "setAttr [] k v = [(k, v)]"
| "setAttr ((k', v') # ps) k v =
     (if k' = k then (k, v) # ps else (k', v') # setAttr ps k v)"

definition setProperty :: "Element \<Rightarrow> Identifier \<Rightarrow> string \<Rightarrow> Element" where
  "setProperty t k v = Element (tagName t) (setAttr (attributes t) k v) (children t)"

definition getStringAttribute :: "Element \<Rightarrow> Identifier \<Rightarrow> string \<Rightarrow> string" where
  "getStringAttribute t k dflt = (case map_of (attributes t) k of None \<Rightarrow> dflt | Some v \<Rightarrow> v)"

definition hasTagName :: "Element \<Rightarrow> Identifier \<Rightarrow> bool" where
  "hasTagName t n = (tagName t = n)"

text \<open>The first direct child with the given name, if there is one.\<close>

definition getChildByName :: "Element \<Rightarrow> Identifier \<Rightarrow> Element option" where
  "getChildByName t n = find (\<lambda>c. tagName c = n) (children t)"

section \<open>The delta record\<close>

text \<open>
  Modelled from the spec: the serialization keys \<open>Serialization::VCS::delta\<close>,
  \<open>deltaType\<close>, \<open>deltaName\<close>, \<open>deltaStringParam\<close>, \<open>deltaIntParam\<close> and \<open>deltaId\<close>
  are declared outside the sources at hand; the spec lists them as the element's name
  and its five fields (type, name, string parameter, integer parameter, identifier). They
  are taken as six different identifiers, spelled as the constants are.
\<close>

definition delta :: Identifier where "delta = ''delta''"
definition deltaType :: Identifier where "deltaType = ''deltaType''"
definition deltaName :: Identifier where "deltaName = ''deltaName''"
definition deltaStringParam :: Identifier where "deltaStringParam = ''deltaStringParam''"
definition deltaIntParam :: Identifier where "deltaIntParam = ''deltaIntParam''"
definition deltaId :: Identifier where "deltaId = ''deltaId''"

definition undefinedDelta :: string where
  "undefinedDelta = ''undefined''"

definition defaultNumChanges :: int64 where
  "defaultNumChanges = - 1"

record DeltaDescription =
  stringToTranslate :: string
  intParameter :: int64
  stringParameter :: string

text \<open>
  Modelled from the spec: the constructor \<open>DeltaDescription(text, numChanges, parameter)\<close>
  is declared outside the sources at hand; the spec describes a description with a name
  and optional string and integer parameters, so the constructor stores its three
  arguments in the three fields.
\<close>

definition mkDeltaDescription :: "string \<Rightarrow> int64 \<Rightarrow> string \<Rightarrow> DeltaDescription" where
  "mkDeltaDescription text numChanges parameter =
     \<lparr>stringToTranslate = text, intParameter = numChanges, stringParameter = parameter\<rparr>"

record Delta =
  type :: string
  description :: DeltaDescription
  vcsUuid :: Uuid

text \<open>
  \<open>Delta::serialize\<close>. The source creates an element named \<open>delta\<close> under the name
  \<open>xml\<close>, and then sets the five properties on \<open>tree\<close> and returns \<open>tree\<close>, a
  name the function does not declare. The two names are kept apart as the source has
  them: the element that \<open>tree\<close> stands for is an argument, and \<open>xml\<close> is created and
  not used again.
\<close>

definition serialize :: "Element \<Rightarrow> Delta \<Rightarrow> Element" where
  "serialize tree d =
     (let xml = Element delta [] [];
          tree = setProperty tree deltaType (type d);
          tree = setProperty tree deltaName (stringToTranslate (description d));
          tree = setProperty tree deltaStringParam (stringParameter (description d));
          tree = setProperty tree deltaIntParam (StringOfInt64 (intParameter (description d)));
          tree = setProperty tree deltaId (UuidToString (vcsUuid d))
      in tree)"

text \<open>\<open>Delta::reset\<close> has an empty body.\<close>

definition reset :: "Delta \<Rightarrow> Delta" where
  "reset d = d"

text \<open>
  \<open>Delta::deserialize\<close>: the root is the tree itself when it is named \<open>delta\<close>, else
  its first child of that name; without a root the function returns at once.
\<close>

definition deserialize :: "Delta \<Rightarrow> Element \<Rightarrow> Delta" where
  "deserialize d0 tree =
     (let d = reset d0;
          root = (if hasTagName tree delta then Some tree else getChildByName tree delta)
      in case root of
           None \<Rightarrow> d
         | Some root \<Rightarrow>
             (let d = d\<lparr>vcsUuid := UuidOfString (getStringAttribute root deltaId (UuidToString (vcsUuid d)))\<rparr>;
                  d = d\<lparr>type := getStringAttribute root deltaType undefinedDelta\<rparr>;
                  descriptionName = getStringAttribute root deltaName [];
                  descriptionStringParam = getStringAttribute root deltaStringParam [];
                  descriptionIntParam =
                    getLargeIntValue (getStringAttribute root deltaIntParam (StringOfInt64 defaultNumChanges))
              in d\<lparr>description := mkDeltaDescription descriptionName descriptionIntParam descriptionStringParam\<rparr>))"

section \<open>The resource synchronization service\<close>

subsection \<open>Worker threads\<close>

type_synonym VersionControl = nat

datatype ThreadKind =
  UpdatesCheckThread | RequestResourceThread | RevisionsSyncThread | ProjectCloneThread

datatype Callback =
  OnRequestResourceOk | OnUpdatesCheckOk | OnUpdatesCheckFailed
  | OnFetchDone | OnSyncDone | OnSyncFailed | OnCloneDone | OnCloneFailed

text \<open>What a thread was last asked to do, with the arguments of the call.\<close>

datatype Task =
  NoTask
  | CheckForUpdates nat
  | RequestResource Identifier "32 word"
  | DoFetch VersionControl string string
  | DoSync VersionControl string string "string list"
  | Clone VersionControl string

record Thread =
  kind :: ThreadKind
  isThreadRunning :: bool
  threadShouldExit :: bool
  callbacks :: "Callback set"
  task :: Task

datatype Modal = ProgressTooltip bool | SuccessTooltip | FailTooltip

record AppResourceDto =
  getType :: Identifier
  getHash :: string

record AppVersionDto =
  getPlatformType :: string
  getVersion :: string

record AppInfoDto =
  getVersions :: "AppVersionDto list"
  getResources :: "AppResourceDto list"

text \<open>
  The state the service works on: its pool of threads, the layout (the modal component
  and the tooltips shown so far), the debug output, the workspace (the projects loaded,
  those with local files and those on the remote side), the cached updates info of the
  configuration, and the resource managers' base resources.
\<close>

record App =
  requestThreads :: "Thread list"
  modalComponent :: "Modal option"
  tooltips :: "string list"
  debugLog :: "string list"
  loadedProjects :: "string set"
  localProjects :: "string set"
  remoteProjects :: "string set"
  lastUpdatesInfo :: AppInfoDto
  resourceManagers :: "Identifier \<rightharpoonup> Element"

definition DBG :: "string \<Rightarrow> App \<Rightarrow> App" where
  "DBG msg s = s\<lparr>debugLog := debugLog s @ [msg]\<rparr>"

text \<open>\<open>Array::getFirst\<close>: the first element, or a default (empty) string for an empty array.\<close>

definition getFirst :: "string list \<Rightarrow> string" where
  "getFirst xs = (case xs of [] \<Rightarrow> [] | x # _ \<Rightarrow> x)"

fun findThread :: "(Thread \<Rightarrow> bool) \<Rightarrow> Thread list \<Rightarrow> nat option" where
  "findThread P [] = None"
| "findThread P (t # ts) = (if P t then Some 0 else map_option Suc (findThread P ts))"

text \<open>
  Modelled from the spec: \<open>getRunningThreadFor\<close> and \<open>getNewThreadFor\<close> are templates
  declared outside the sources at hand. The spec has the coordinator check for an
  already-running instance of a kind before starting a new one, and spin worker threads
  up lazily: the first running thread of the kind, if any; and the first thread of the
  kind that is not running, or else a new one added to the pool.
\<close>

definition getRunningThreadFor :: "ThreadKind \<Rightarrow> App \<Rightarrow> nat option" where
  "getRunningThreadFor k s = findThread (\<lambda>t. isThreadRunning t \<and> kind t = k) (requestThreads s)"

definition newThread :: "ThreadKind \<Rightarrow> Thread" where
  "newThread k = \<lparr>kind = k, isThreadRunning = False, threadShouldExit = False,
                  callbacks = {}, task = NoTask\<rparr>"

definition getNewThreadFor :: "ThreadKind \<Rightarrow> App \<Rightarrow> nat \<times> App" where
  "getNewThreadFor k s =
     (case findThread (\<lambda>t. \<not> isThreadRunning t \<and> kind t = k) (requestThreads s) of
        Some i \<Rightarrow> (i, s)
      | None \<Rightarrow> (length (requestThreads s), s\<lparr>requestThreads := requestThreads s @ [newThread k]\<rparr>))"

definition updThread :: "nat \<Rightarrow> (Thread \<Rightarrow> Thread) \<Rightarrow> App \<Rightarrow> App" where
  "updThread i f s =
     (if i < length (requestThreads s)
      then s\<lparr>requestThreads := (requestThreads s)[i := f (requestThreads s ! i)]\<rparr>
      else s)"

definition setCallback :: "nat \<Rightarrow> Callback \<Rightarrow> App \<Rightarrow> App" where
  "setCallback i c s = updThread i (\<lambda>t. t\<lparr>callbacks := insert c (callbacks t)\<rparr>) s"

text \<open>\<open>Thread::signalThreadShouldExit\<close> raises the thread's exit flag and does nothing else.\<close>

definition signalThreadShouldExit :: "nat \<Rightarrow> App \<Rightarrow> App" where
  "signalThreadShouldExit i s = updThread i (\<lambda>t. t\<lparr>threadShouldExit := True\<rparr>) s"

text \<open>
  Modelled from the spec: the worker thread classes are declared outside the sources at
  hand. The spec has each long-running operation run on its own worker thread, so each
  of their entry points (\<open>checkForUpdates\<close>, \<open>requestResource\<close>, \<open>doFetch\<close>,
  \<open>doSync\<close>, \<open>clone\<close>) keeps the arguments of the call and starts the thread, which
  clears the exit flag.
\<close>

definition startThread :: "nat \<Rightarrow> Task \<Rightarrow> App \<Rightarrow> App" where
  "startThread i job s =
     updThread i (\<lambda>t. t\<lparr>isThreadRunning := True, threadShouldExit := False, task := job\<rparr>) s"

definition checkForUpdates :: "nat \<Rightarrow> nat \<Rightarrow> App \<Rightarrow> App" where
  "checkForUpdates thread timeoutMs s = startThread thread (CheckForUpdates timeoutMs) s"

definition requestResource :: "nat \<Rightarrow> Identifier \<Rightarrow> 32 word \<Rightarrow> App \<Rightarrow> App" where
  "requestResource thread resourceId delay s = startThread thread (RequestResource resourceId delay) s"

definition doFetch :: "nat \<Rightarrow> VersionControl \<Rightarrow> string \<Rightarrow> string \<Rightarrow> App \<Rightarrow> App" where
  "doFetch thread vcs projectId projectName s = startThread thread (DoFetch vcs projectId projectName) s"

definition doSync :: "nat \<Rightarrow> VersionControl \<Rightarrow> string \<Rightarrow> string \<Rightarrow> string list \<Rightarrow> App \<Rightarrow> App" where
  "doSync thread vcs projectId projectName revisionIdsToSync s =
     startThread thread (DoSync vcs projectId projectName revisionIdsToSync) s"

definition clone :: "nat \<Rightarrow> VersionControl \<Rightarrow> string \<Rightarrow> App \<Rightarrow> App" where
  "clone thread vcs projectId s = startThread thread (Clone vcs projectId) s"

subsection \<open>Layout, workspace and configuration\<close>

text \<open>
  Modelled from the spec: the layout's \<open>hideModalComponentIfAny\<close>,
  \<open>showModalComponentUnowned\<close> and \<open>showTooltip\<close> are declared outside the sources at
  hand. The spec speaks of UI feedback by tooltip and of a transient notification that
  surfaces an error string: the layout holds at most one modal component, and
  \<open>showTooltip\<close> adds its message to the tooltips shown.
\<close>

definition hideModalComponentIfAny :: "App \<Rightarrow> App" where
  "hideModalComponentIfAny s = s\<lparr>modalComponent := None\<rparr>"

definition showModalComponentUnowned :: "Modal \<Rightarrow> App \<Rightarrow> App" where
  "showModalComponentUnowned c s = s\<lparr>modalComponent := Some c\<rparr>"

definition showTooltip :: "string \<Rightarrow> App \<Rightarrow> App" where
  "showTooltip message s = s\<lparr>tooltips := tooltips s @ [message]\<rparr>"

text \<open>
  Modelled from the spec: \<open>Workspace::unloadProject(id, deleteLocally, deleteRemotely)\<close>
  is declared outside the sources at hand. The spec speaks of the local cleanup of the
  partially-created project on a clone failure: the project of that id is unloaded, and
  its local and remote copies are deleted as the two flags say.
\<close>

definition unloadProject :: "string \<Rightarrow> bool \<Rightarrow> bool \<Rightarrow> App \<Rightarrow> App" where
  "unloadProject projectId deleteLocally deleteRemotely s =
     s\<lparr>loadedProjects := loadedProjects s - {projectId},
       localProjects := (if deleteLocally then localProjects s - {projectId} else localProjects s),
       remoteProjects := (if deleteRemotely then remoteProjects s - {projectId} else remoteProjects s)\<rparr>"

text \<open>
  Modelled from the spec: \<open>AppInfoDto::resourceSeemsOutdated\<close> is declared outside the
  sources at hand. The spec has a resource outdated exactly when its content hash differs
  from the hash stored for it in the cached manifest; a resource for which the cached
  manifest stores no hash has none to agree with.
\<close>

definition storedHash :: "AppInfoDto \<Rightarrow> Identifier \<Rightarrow> string option" where
  "storedHash info t = map_option getHash (find (\<lambda>r. getType r = t) (getResources info))"

definition resourceSeemsOutdated :: "AppInfoDto \<Rightarrow> AppResourceDto \<Rightarrow> bool" where
  "resourceSeemsOutdated info resource = (storedHash info (getType resource) \<noteq> Some (getHash resource))"

subsection \<open>The random generator\<close>

text \<open>
  \<open>Random::nextInt()\<close> steps a 48-bit linear congruential seed and returns bits 16 to 47
  as an \<open>int\<close>; \<open>Random::nextInt(maxValue)\<close> scales that value, read as unsigned, by
  \<open>maxValue\<close> in 64 bits and keeps the upper half. A generator constructed without a
  seed seeds itself from the clock, so the seed is an input here.
\<close>

definition nextInt :: "int64 \<Rightarrow> 32 word \<times> int64" where
  "nextInt seed =
     (let seed' = (seed * 0x5DEECE66D + 11) AND 0xFFFFFFFFFFFF
      in (ucast (signed_drop_bit 16 seed'), seed'))"

definition nextIntBelow :: "32 word \<Rightarrow> int64 \<Rightarrow> 32 word \<times> int64" where
  "nextIntBelow maxValue seed =
     (let (r, seed') = nextInt seed
      in (ucast (drop_bit 32 ((ucast r :: 64 word) * scast maxValue)), seed'))"

subsection \<open>Starting and cancelling operations\<close>

definition UPDATE_INFO_TIMEOUT_MS :: nat where
  "UPDATE_INFO_TIMEOUT_MS = 1000 * 10"

definition prepareResourceRequestThread :: "App \<Rightarrow> nat \<times> App" where
  "prepareResourceRequestThread s =
     (let (thread, s) = getNewThreadFor RequestResourceThread s
      in (thread, setCallback thread OnRequestResourceOk s))"

definition prepareUpdatesCheckThread :: "App \<Rightarrow> nat \<times> App" where
  "prepareUpdatesCheckThread s =
     (let (thread, s) = getNewThreadFor UpdatesCheckThread s;
          s = setCallback thread OnUpdatesCheckOk s;
          s = setCallback thread OnUpdatesCheckFailed s
      in (thread, s))"

definition prepareSyncRevisionsThread :: "App \<Rightarrow> nat \<times> App" where
  "prepareSyncRevisionsThread s =
     (let (thread, s) = getNewThreadFor RevisionsSyncThread s;
          s = setCallback thread OnFetchDone s;
          s = setCallback thread OnSyncDone s;
          s = setCallback thread OnSyncFailed s
      in (thread, s))"

definition prepareFetchRevisionsThread :: "App \<Rightarrow> nat \<times> App" where
  "prepareFetchRevisionsThread s = getNewThreadFor RevisionsSyncThread s"

definition prepareProjectCloneThread :: "App \<Rightarrow> nat \<times> App" where
  "prepareProjectCloneThread s =
     (let (thread, s) = getNewThreadFor ProjectCloneThread s;
          s = setCallback thread OnCloneDone s;
          s = setCallback thread OnCloneFailed s
      in (thread, s))"

text \<open>The constructor prepares the updates check thread and starts the check.\<close>

definition ResourceSyncService :: "App \<Rightarrow> App" where
  "ResourceSyncService s =
     (let (thread, s) = prepareUpdatesCheckThread s
      in checkForUpdates thread UPDATE_INFO_TIMEOUT_MS s)"

definition fetchRevisionsInfo :: "VersionControl \<Rightarrow> string \<Rightarrow> string \<Rightarrow> App \<Rightarrow> App" where
  "fetchRevisionsInfo vcs projectId projectName s =
     (case getRunningThreadFor RevisionsSyncThread s of
        Some thread \<Rightarrow>
          DBG ''Warning: attempt to start a revision fetch thread while another one is running'' s
      | None \<Rightarrow>
          (let (thread, s) = prepareFetchRevisionsThread s
           in doFetch thread vcs projectId projectName s))"

definition syncRevisions :: "VersionControl \<Rightarrow> string \<Rightarrow> string \<Rightarrow> string list \<Rightarrow> App \<Rightarrow> App" where
  "syncRevisions vcs projectId projectName revisionIdsToSync s =
     (case getRunningThreadFor RevisionsSyncThread s of
        Some thread \<Rightarrow>
          DBG ''Warning: attempt to start a revision sync thread while another one is running'' s
      | None \<Rightarrow>
          (let (thread, s) = prepareSyncRevisionsThread s
           in doSync thread vcs projectId projectName revisionIdsToSync s))"

definition cancelSyncRevisions :: "App \<Rightarrow> App" where
  "cancelSyncRevisions s =
     (case getRunningThreadFor RevisionsSyncThread s of
        Some thread \<Rightarrow> signalThreadShouldExit thread s
      | None \<Rightarrow> s)"

definition cloneProject :: "VersionControl \<Rightarrow> string \<Rightarrow> App \<Rightarrow> App" where
  "cloneProject vcs projectId s =
     (case getRunningThreadFor ProjectCloneThread s of
        Some thread \<Rightarrow>
          DBG ''Warning: attempt to start a project clone thread while another one is running'' s
      | None \<Rightarrow>
          (let s = showModalComponentUnowned (ProgressTooltip False) s;
               (thread, s) = prepareProjectCloneThread s
           in clone thread vcs projectId s))"

definition cancelCloneProject :: "App \<Rightarrow> App" where
  "cancelCloneProject s =
     (case getRunningThreadFor ProjectCloneThread s of
        Some thread \<Rightarrow> signalThreadShouldExit thread s
      | None \<Rightarrow> s)"

subsection \<open>Completion handlers\<close>

text \<open>\<open>onRequestResourceOk\<close>: a known resource manager takes the new base resource.\<close>

definition onRequestResourceOk :: "Identifier \<Rightarrow> Element \<Rightarrow> App \<Rightarrow> App" where
  "onRequestResourceOk resourceId resource s =
     (if resourceId \<in> dom (resourceManagers s)
      then s\<lparr>resourceManagers := (resourceManagers s)(resourceId \<mapsto> resource)\<rparr>
      else s)"

text \<open>
  \<open>onUpdatesCheckOk\<close>. The loop over the versions of the new info has an empty body
  and is left out. The cached info is the one the configuration holds (an empty info
  when none was saved). The loop over the resources of the new info starts one resource
  request, on a thread of its own and after a random delay, for each resource that seems
  outdated against the cached info, and remembers whether there was one; at the end the
  new info is saved as the cached one.
\<close>

fun resourcesLoop :: "AppInfoDto \<Rightarrow> AppResourceDto list \<Rightarrow> int64 \<times> bool \<times> App \<Rightarrow> int64 \<times> bool \<times> App" where
  "resourcesLoop lastInfo [] st = st"
| "resourcesLoop lastInfo (newResource # rest) (r, everythingIsUpToDate, s) =
     (if resourceSeemsOutdated lastInfo newResource
      then (let (n, r) = nextIntBelow 5 r;
                delay = n * 1000;
                (thread, s) = prepareResourceRequestThread s;
                s = requestResource thread (getType newResource) delay s
            in resourcesLoop lastInfo rest (r, False, s))
      else resourcesLoop lastInfo rest (r, everythingIsUpToDate, s))"

definition onUpdatesCheckOk :: "int64 \<Rightarrow> AppInfoDto \<Rightarrow> App \<Rightarrow> App" where
  "onUpdatesCheckOk seed info s =
     (let lastInfo = lastUpdatesInfo s;
          (r, everythingIsUpToDate, s) = resourcesLoop lastInfo (getResources info) (seed, True, s);
          s = (if everythingIsUpToDate then DBG ''All resources are up to date'' s else s)
      in s\<lparr>lastUpdatesInfo := info\<rparr>)"

definition onUpdatesCheckFailed :: "string list \<Rightarrow> App \<Rightarrow> App" where
  "onUpdatesCheckFailed errors s = DBG (''onUpdatesCheckFailed: '' @ getFirst errors) s"

definition onFetchDone :: "App \<Rightarrow> App" where
  "onFetchDone s = s"

definition onSyncDone :: "bool \<Rightarrow> App \<Rightarrow> App" where
  "onSyncDone nothingToSync s =
     (let s = hideModalComponentIfAny s;
          s = showTooltip (if nothingToSync then ''vcs::sync::uptodate'' else ''vcs::sync::done'') s
      in showModalComponentUnowned SuccessTooltip s)"

definition onSyncFailed :: "string list \<Rightarrow> App \<Rightarrow> App" where
  "onSyncFailed errors s =
     (let s = hideModalComponentIfAny s;
          s = (if length errors > 0 then showTooltip (getFirst errors) s else s)
      in showModalComponentUnowned FailTooltip s)"

definition onCloneDone :: "App \<Rightarrow> App" where
  "onCloneDone s =
     (let s = hideModalComponentIfAny s
      in showModalComponentUnowned SuccessTooltip s)"

definition onCloneFailed :: "string list \<Rightarrow> string \<Rightarrow> App \<Rightarrow> App" where
  "onCloneFailed errors projectId s =
     (let s = hideModalComponentIfAny s;
          s = (if length errors > 0 then showTooltip (getFirst errors) s else s);
          s = showModalComponentUnowned FailTooltip s
      in unloadProject projectId True False s)"

subsection \<open>Observing the resource requests\<close>

text \<open>
  The number of resource requests under way for a resource type.
\<close>

fun requestedResource :: "Task \<Rightarrow> Identifier option" where
  "requestedResource (RequestResource resourceId delay) = Some resourceId"
| "requestedResource _ = None"

definition pendingRequests :: "Identifier \<Rightarrow> App \<Rightarrow> nat" where
  "pendingRequests t s =
     length (filter (\<lambda>th. isThreadRunning th \<and> kind th = RequestResourceThread
                          \<and> requestedResource (task th) = Some t) (requestThreads s))"

text \<open>
  The delays of the next \<open>n\<close> requests of the handler's loop, as its generator draws
  them one after the other from a seed.
\<close>

fun drawnDelays :: "int64 \<Rightarrow> nat \<Rightarrow> 32 word list" where
  "drawnDelays r 0 = []"
| "drawnDelays r (Suc n) =
     (fst (nextIntBelow 5 r) * 1000) # drawnDelays (snd (nextIntBelow 5 r)) n"

text \<open>
  What the loop has done to the pool \<open>ts\<close>, now \<open>ts'\<close>: for each flagged resource, in
  order, one thread of its own that was not running before runs the request for that
  resource with the delay drawn for it, and every other thread is as it was.
\<close>

definition startedRequests ::
  "Thread list \<Rightarrow> Thread list \<Rightarrow> nat list \<Rightarrow> AppResourceDto list \<Rightarrow> 32 word list \<Rightarrow> bool" where
  "startedRequests ts ts' threads flagged delays =
     (length threads = length flagged \<and> distinct threads \<and> length ts \<le> length ts'
      \<and> (\<forall>k<length flagged.
            threads ! k < length ts'
            \<and> (threads ! k < length ts \<longrightarrow> \<not> isThreadRunning (ts ! (threads ! k)))
            \<and> isThreadRunning (ts' ! (threads ! k))
            \<and> task (ts' ! (threads ! k)) = RequestResource (getType (flagged ! k)) (delays ! k))
      \<and> (\<forall>i<length ts'. i \<notin> set threads \<longrightarrow> i < length ts \<and> ts' ! i = ts ! i))"

subsection \<open>Sample states\<close>

text \<open>
  A state with a revisions thread and a clone thread at work, an idle resource request
  thread, and a half-cloned project; and a state with nothing going on.
\<close>

definition busyApp :: App where
  "busyApp =
     \<lparr>requestThreads =
        [\<lparr>kind = RevisionsSyncThread, isThreadRunning = True, threadShouldExit = False,
          callbacks = {OnFetchDone, OnSyncDone, OnSyncFailed},
          task = DoSync 1 ''p1'' ''Song'' [''r1'', ''r2'']\<rparr>,
         \<lparr>kind = ProjectCloneThread, isThreadRunning = True, threadShouldExit = False,
          callbacks = {OnCloneDone, OnCloneFailed}, task = Clone 2 ''p2''\<rparr>,
         \<lparr>kind = RequestResourceThread, isThreadRunning = False, threadShouldExit = False,
          callbacks = {OnRequestResourceOk}, task = RequestResource ''scales'' 2000\<rparr>],
      modalComponent = Some (ProgressTooltip False),
      tooltips = [],
      debugLog = [],
      loadedProjects = {''p1'', ''p2''},
      localProjects = {''p1'', ''p2''},
      remoteProjects = {''p1'', ''p2''},
      lastUpdatesInfo =
        \<lparr>getVersions = [],
         getResources = [\<lparr>getType = ''scales'', getHash = ''aa''\<rparr>,
                         \<lparr>getType = ''chords'', getHash = ''bb''\<rparr>]\<rparr>,
      resourceManagers = Map.empty\<rparr>"

definition idleApp :: App where
  "idleApp =
     \<lparr>requestThreads = [],
      modalComponent = None,
      tooltips = [],
      debugLog = [],
      loadedProjects = {},
      localProjects = {},
      remoteProjects = {},
      lastUpdatesInfo = \<lparr>getVersions = [], getResources = []\<rparr>,
      resourceManagers = Map.empty\<rparr>"

definition sampleDelta :: Delta where
  "sampleDelta =
     \<lparr>type = ''added'',
      description = \<lparr>stringToTranslate = ''added {x} notes'', intParameter = - 42,
                      stringParameter = ''piano''\<rparr>,
      vcsUuid = [0, 1, 2, 3, 4, 5, 6, 7, 8, 9, 10, 171, 205, 239, 254, 255]\<rparr>"


definition sampleInfo :: AppInfoDto where
  "sampleInfo =
     \<lparr>getVersions = [\<lparr>getPlatformType = ''linux64'', getVersion = ''2.0''\<rparr>],
      getResources = [\<lparr>getType = ''scales'', getHash = ''aa''\<rparr>,
                      \<lparr>getType = ''chords'', getHash = ''cc''\<rparr>,
                      \<lparr>getType = ''temperaments'', getHash = ''dd''\<rparr>]\<rparr>"

section \<open>Properties of the delta record\<close>

lemmas delta_keys =
  delta_def deltaType_def deltaName_def deltaStringParam_def deltaIntParam_def deltaId_def

lemma serialize_eq:
  "serialize tree d =
     Element (tagName tree)
       (setAttr (setAttr (setAttr (setAttr (setAttr (attributes tree)
          deltaType (type d))
          deltaName (stringToTranslate (description d)))
          deltaStringParam (stringParameter (description d)))
          deltaIntParam (StringOfInt64 (intParameter (description d))))
          deltaId (UuidToString (vcsUuid d)))
       (children tree)"
  by (simp add: serialize_def setProperty_def)

lemma map_of_setAttr:
  "map_of (setAttr ps k v) k' = (if k' = k then Some v else map_of ps k')"
  by (induction ps) auto

lemma keys_setAttr: "fst ` set (setAttr ps k v) = insert k (fst ` set ps)"
proof (induction ps)
  case Nil
  show ?case by simp
next
  case (Cons p ps)
  obtain k' v' where p: "p = (k', v')" by (cases p)
  show ?case
  proof (cases "k' = k")
    case True
    with p show ?thesis by simp
  next
    case False
    with p Cons.IH show ?thesis by (simp add: insert_commute)
  qed
qed

subsection \<open>Decimal text read back\<close>

lemma decimalDigit_props:
  assumes "d < 10"
  shows "isDigit (decimalDigit d)" "of_char (decimalDigit d) - 48 = d"
    "decimalDigit d \<noteq> CHR ''-''" "\<not> isWhitespace (decimalDigit d)"
proof -
  from assms consider "d = 0" | "d = 1" | "d = 2" | "d = 3" | "d = 4"
    | "d = 5" | "d = 6" | "d = 7" | "d = 8" | "d = 9"
    by atomize_elim arith
  then have "isDigit (decimalDigit d) \<and> of_char (decimalDigit d) - 48 = d
      \<and> decimalDigit d \<noteq> CHR ''-'' \<and> \<not> isWhitespace (decimalDigit d)"
    by cases (simp_all add: decimalDigit_def isDigit_def isWhitespace_def)
  then show "isDigit (decimalDigit d)" "of_char (decimalDigit d) - 48 = d"
    "decimalDigit d \<noteq> CHR ''-''" "\<not> isWhitespace (decimalDigit d)"
    by simp_all
qed

lemma readDigits_append_digit:
  "d < 10 \<Longrightarrow> readDigits v (decimalDigit d # r) = readDigits (v * 10 + word_of_nat d) r"
  by (simp add: decimalDigit_props)

lemma readDigits_printDigits:
  "readDigits v (printDigits n @ r) =
     readDigits (v * 10 ^ length (printDigits n) + word_of_nat n) r"
proof (induction n arbitrary: r rule: printDigits.induct)
  case (1 n)
  show ?case
  proof (cases "n < 10")
    case True
    then show ?thesis
      by (simp add: printDigits.simps [of n] decimalDigit_props)
  next
    case False
    have m: "n mod 10 < 10" by simp
    have "readDigits v (printDigits n @ r)
        = readDigits v (printDigits (n div 10) @ (decimalDigit (n mod 10) # r))"
      using False by (simp add: printDigits.simps [of n])
    also have "\<dots> = readDigits (v * 10 ^ length (printDigits (n div 10)) + word_of_nat (n div 10))
                       (decimalDigit (n mod 10) # r)"
      by (rule "1.IH" [OF False])
    also have "\<dots> = readDigits ((v * 10 ^ length (printDigits (n div 10)) + word_of_nat (n div 10)) * 10
                        + word_of_nat (n mod 10)) r"
      by (rule readDigits_append_digit [OF m])
    also have "(v * 10 ^ length (printDigits (n div 10)) + word_of_nat (n div 10)) * 10
                        + word_of_nat (n mod 10)
             = v * 10 ^ length (printDigits n) + (word_of_nat n :: int64)"
    proof -
      have "(word_of_nat (n div 10 * 10 + n mod 10) :: int64)
          = word_of_nat (n div 10) * 10 + word_of_nat (n mod 10)"
        by (simp only: of_nat_add of_nat_mult of_nat_numeral)
      then have w: "(word_of_nat n :: int64) = word_of_nat (n div 10) * 10 + word_of_nat (n mod 10)"
        by (simp only: div_mult_mod_eq)
      have l: "length (printDigits n) = Suc (length (printDigits (n div 10)))"
        using False by (simp add: printDigits.simps [of n])
      show ?thesis
        unfolding w l by (simp add: algebra_simps)
    qed
    finally show ?thesis .
  qed
qed

lemma readDigits_printDigits0: "readDigits 0 (printDigits n) = word_of_nat n"
  using readDigits_printDigits [of 0 n "[]"] by simp

lemma printDigits_Cons: "\<exists>c cs. printDigits n = c # cs \<and> isDigit c"
proof (induction n rule: printDigits.induct)
  case (1 n)
  show ?case
  proof (cases "n < 10")
    case True
    then show ?thesis by (simp add: printDigits.simps [of n] decimalDigit_props)
  next
    case False
    from "1.IH" [OF False] obtain c cs where "printDigits (n div 10) = c # cs" "isDigit c"
      by blast
    with False show ?thesis by (simp add: printDigits.simps [of n])
  qed
qed

lemma isDigit_plain: "isDigit c \<Longrightarrow> c \<noteq> CHR ''-'' \<and> \<not> isWhitespace c"
  by (auto simp: isDigit_def isWhitespace_def)

lemma getLargeIntValue_printDigits: "getLargeIntValue (printDigits n) = word_of_nat n"
proof -
  obtain c cs where p: "printDigits n = c # cs" and d: "isDigit c"
    using printDigits_Cons by blast
  from d have "c \<noteq> CHR ''-''" "\<not> isWhitespace c" using isDigit_plain by auto
  then have "getLargeIntValue (c # cs) = readDigits 0 (c # cs)"
    by (simp add: getLargeIntValue_def)
  then show ?thesis using p readDigits_printDigits0 [of n] by simp
qed

lemma getLargeIntValue_minus_printDigits:
  "getLargeIntValue (CHR ''-'' # printDigits n) = - word_of_nat n"
  by (simp add: getLargeIntValue_def isWhitespace_def readDigits_printDigits0)

lemma getLargeIntValue_StringOfInt64: "getLargeIntValue (StringOfInt64 n) = n"
proof (cases "0 \<le> sint n")
  case True
  then have "word_of_nat (nat (sint n)) = (word_of_int (sint n) :: int64)"
    by (simp add: word_of_int_nat)
  then show ?thesis using True
    by (simp add: StringOfInt64_def getLargeIntValue_printDigits)
next
  case False
  then have "0 \<le> - sint n" by simp
  then have "word_of_nat (nat (- sint n)) = (word_of_int (- sint n) :: int64)"
    by (simp add: word_of_int_nat)
  then show ?thesis using False
    by (simp add: StringOfInt64_def getLargeIntValue_minus_printDigits)
qed

subsection \<open>Hexadecimal text read back\<close>

lemma nextHexDigit_hexDigit:
  assumes "d < 16"
  shows "nextHexDigit (hexDigit d # r) = Some (d, r)"
proof -
  from assms consider "d = 0" | "d = 1" | "d = 2" | "d = 3" | "d = 4"
    | "d = 5" | "d = 6" | "d = 7" | "d = 8" | "d = 9" | "d = 10" | "d = 11"
    | "d = 12" | "d = 13" | "d = 14" | "d = 15"
    by atomize_elim arith
  then show ?thesis
    by cases (simp_all add: hexDigit_def isDigit_def isLower_def isUpper_def)
qed

lemma hi_nibble_less: "unat (drop_bit 4 (b :: 8 word)) < 16"
proof -
  have "unat (drop_bit 4 b) = unat b div 16"
    by (simp add: drop_bit_eq_div unat_div)
  moreover have "unat b < 256" using unsigned_less [of b] by simp
  ultimately show ?thesis by simp
qed

lemma lo_nibble_less: "unat ((b :: 8 word) AND 15) < 16"
proof -
  have "unat (b AND 15) \<le> unat (15 :: 8 word)"
    by (rule word_and_le1 [THEN word_le_nat_alt [THEN iffD1]])
  then show ?thesis by simp
qed

lemma nibbles_join:
  "word_of_nat (push_bit 4 (unat (drop_bit 4 b)) OR unat (b AND 15)) = (b :: 8 word)"
proof -
  have "(word_of_nat (push_bit 4 (unat (drop_bit 4 b)) OR unat (b AND 15)) :: 8 word)
      = push_bit 4 (drop_bit 4 b) OR (b AND 15)"
    by (simp add: of_nat_or_eq of_nat_push_bit)
  also have "\<dots> = push_bit 4 (drop_bit 4 b) OR (b AND mask 4)"
    by (simp add: mask_eq_exp_minus_1)
  also have "\<dots> = b"
    by (rule bit_word_eqI) (auto simp: bit_simps)
  finally show ?thesis .
qed

lemma loadFromHexString_toHexString: "loadFromHexString (toHexString bs) = bs"
proof (induction bs)
  case Nil
  show ?case by (simp add: loadFromHexString.simps [of "[]"])
next
  case (Cons b bs)
  show ?case
    by (simp add: loadFromHexString.simps [of "hexDigit _ # _"] nextHexDigit_hexDigit
        hi_nibble_less lo_nibble_less nibbles_join Cons.IH del: nextHexDigit.simps)
qed

lemma UuidOfString_UuidToString:
  "length u = 16 \<Longrightarrow> UuidOfString (UuidToString u) = u"
  by (simp add: UuidOfString_def UuidToString_def loadFromHexString_toHexString)

subsection \<open>Serialization\<close>

text \<open>
  What \<open>serialize\<close> returns whatever \<open>tree\<close> stands for: the name and the children
  of \<open>tree\<close>, and the attributes of \<open>tree\<close> with the five properties set. The element
  named \<open>delta\<close> that the function creates is not part of the result.
\<close>

lemma serialize_keeps_tree:
  "tagName (serialize tree d) = tagName tree
   \<and> children (serialize tree d) = children tree
   \<and> fst ` set (attributes (serialize tree d))
       = fst ` set (attributes tree)
         \<union> {deltaType, deltaName, deltaStringParam, deltaIntParam, deltaId}"
  by (simp add: serialize_eq keys_setAttr insert_commute)

text \<open>
  Had \<open>tree\<close> been the element that the function creates, the result would be that
  element with exactly the five attributes.
\<close>

lemma serialize_of_new_element:
  "serialize (Element delta [] []) d =
     Element delta
       [(deltaType, type d),
        (deltaName, stringToTranslate (description d)),
        (deltaStringParam, stringParameter (description d)),
        (deltaIntParam, StringOfInt64 (intParameter (description d))),
        (deltaId, UuidToString (vcsUuid d))] []"
  by (simp add: serialize_eq delta_keys)

lemma getStringAttribute_serialize:
  "getStringAttribute (serialize tree d) deltaType dflt = type d"
  "getStringAttribute (serialize tree d) deltaName dflt = stringToTranslate (description d)"
  "getStringAttribute (serialize tree d) deltaStringParam dflt = stringParameter (description d)"
  "getStringAttribute (serialize tree d) deltaIntParam dflt = StringOfInt64 (intParameter (description d))"
  "getStringAttribute (serialize tree d) deltaId dflt = UuidToString (vcsUuid d)"
  by (simp_all add: serialize_eq getStringAttribute_def map_of_setAttr) (simp_all add: delta_keys)

text \<open>
  Whenever \<open>tree\<close> is an element named \<open>delta\<close>, whatever attributes it has already,
  deserializing the result of \<open>serialize\<close> gives back the five fields.
\<close>

lemma deserialize_serialize_of_delta_element:
  assumes "hasTagName tree delta" and "length (vcsUuid d) = 16"
  shows "type (deserialize d0 (serialize tree d)) = type d
     \<and> stringToTranslate (description (deserialize d0 (serialize tree d))) = stringToTranslate (description d)
     \<and> stringParameter (description (deserialize d0 (serialize tree d))) = stringParameter (description d)
     \<and> intParameter (description (deserialize d0 (serialize tree d))) = intParameter (description d)
     \<and> vcsUuid (deserialize d0 (serialize tree d)) = vcsUuid d"
proof -
  from assms(1) have "hasTagName (serialize tree d) delta"
    by (simp add: hasTagName_def serialize_eq)
  then show ?thesis
    using assms(2)
    by (simp add: deserialize_def reset_def getStringAttribute_serialize mkDeltaDescription_def
        getLargeIntValue_StringOfInt64 UuidOfString_UuidToString)
qed


text \<open>
  C9: for every delta record and every tree that is not named \<open>delta\<close> and has no
  direct child named \<open>delta\<close>, \<open>deserialize\<close> returns the record as it was: the
  type, the description and the identifier are unchanged.
\<close>

theorem deserialize_no_delta_unchanged:
  "\<not> hasTagName tree delta \<Longrightarrow> getChildByName tree delta = None \<Longrightarrow>
     deserialize d tree = d
     \<and> type (deserialize d tree) = type d
     \<and> description (deserialize d tree) = description d
     \<and> vcsUuid (deserialize d tree) = vcsUuid d"
  by (simp add: deserialize_def reset_def)

theorem deserialize_no_delta_unchanged_witness:
  "deserialize sampleDelta (Element ''track'' [(deltaType, ''removed'')] [Element ''note'' [] []])
     = sampleDelta"
proof -
  have "\<not> hasTagName (Element ''track'' [(deltaType, ''removed'')] [Element ''note'' [] []]) delta"
    by (simp add: hasTagName_def delta_def)
  moreover have "getChildByName (Element ''track'' [(deltaType, ''removed'')] [Element ''note'' [] []]) delta = None"
    by (simp add: getChildByName_def delta_def)
  ultimately show ?thesis
    using deserialize_no_delta_unchanged
      [of "Element ''track'' [(deltaType, ''removed'')] [Element ''note'' [] []]" sampleDelta]
    by simp
qed


section \<open>Properties of the service\<close>

subsection \<open>Finding threads\<close>

lemma findThread_None: "findThread P ts = None \<longleftrightarrow> (\<forall>t\<in>set ts. \<not> P t)"
  by (induction ts) auto

lemma findThread_Some:
  "findThread P ts = Some i \<Longrightarrow> i < length ts \<and> P (ts ! i) \<and> (\<forall>j<i. \<not> P (ts ! j))"
proof (induction ts arbitrary: i)
  case Nil
  then show ?case by simp
next
  case (Cons t ts)
  show ?case
  proof (cases "P t")
    case True
    with Cons.prems show ?thesis by simp
  next
    case False
    with Cons.prems obtain k where k: "findThread P ts = Some k" "i = Suc k"
      by auto
    from Cons.IH [OF k(1)] have "k < length ts" "P (ts ! k)" "\<forall>j<k. \<not> P (ts ! j)"
      by simp_all
    with False k(2) show ?thesis
      by (auto simp: nth_Cons split: nat.splits)
  qed
qed

lemma getRunningThreadFor_running:
  "\<exists>t\<in>set (requestThreads s). isThreadRunning t \<and> kind t = k \<Longrightarrow>
     \<exists>i. getRunningThreadFor k s = Some i"
  using findThread_None [of "\<lambda>t. isThreadRunning t \<and> kind t = k" "requestThreads s"]
  by (cases "getRunningThreadFor k s") (auto simp: getRunningThreadFor_def)


subsection \<open>Single flight\<close>

text \<open>
  C1: while a thread of the class that an operation runs on is at work (the revisions
  thread class for both the revision fetch and the revision sync, the clone thread class
  for the project clone), \<open>fetchRevisionsInfo\<close>, \<open>syncRevisions\<close> and
  \<open>cloneProject\<close> return the state they were given with one warning added to the debug
  output: no thread is prepared or started, nothing is queued, and the layout, the
  workspace and the configuration are as before.
\<close>

theorem start_dropped_while_running:
  "((\<exists>t\<in>set (requestThreads s). isThreadRunning t \<and> kind t = RevisionsSyncThread) \<longrightarrow>
      fetchRevisionsInfo vcs projectId projectName s =
        s\<lparr>debugLog := debugLog s @
          [''Warning: attempt to start a revision fetch thread while another one is running'']\<rparr>
      \<and> syncRevisions vcs projectId projectName revisionIdsToSync s =
        s\<lparr>debugLog := debugLog s @
          [''Warning: attempt to start a revision sync thread while another one is running'']\<rparr>)
   \<and> ((\<exists>t\<in>set (requestThreads s). isThreadRunning t \<and> kind t = ProjectCloneThread) \<longrightarrow>
      cloneProject vcs projectId s =
        s\<lparr>debugLog := debugLog s @
          [''Warning: attempt to start a project clone thread while another one is running'']\<rparr>)"
proof (intro conjI impI)
  assume "\<exists>t\<in>set (requestThreads s). isThreadRunning t \<and> kind t = RevisionsSyncThread"
  then obtain i where i: "getRunningThreadFor RevisionsSyncThread s = Some i"
    using getRunningThreadFor_running by blast
  show "fetchRevisionsInfo vcs projectId projectName s =
        s\<lparr>debugLog := debugLog s @
          [''Warning: attempt to start a revision fetch thread while another one is running'']\<rparr>"
    by (simp add: fetchRevisionsInfo_def i DBG_def)
  show "syncRevisions vcs projectId projectName revisionIdsToSync s =
        s\<lparr>debugLog := debugLog s @
          [''Warning: attempt to start a revision sync thread while another one is running'']\<rparr>"
    by (simp add: syncRevisions_def i DBG_def)
next
  assume "\<exists>t\<in>set (requestThreads s). isThreadRunning t \<and> kind t = ProjectCloneThread"
  then obtain i where i: "getRunningThreadFor ProjectCloneThread s = Some i"
    using getRunningThreadFor_running by blast
  show "cloneProject vcs projectId s =
        s\<lparr>debugLog := debugLog s @
          [''Warning: attempt to start a project clone thread while another one is running'']\<rparr>"
    by (simp add: cloneProject_def i DBG_def)
qed


theorem start_dropped_while_running_witness:
  "fetchRevisionsInfo 3 ''p3'' ''Tune'' busyApp =
     busyApp\<lparr>debugLog :=
       [''Warning: attempt to start a revision fetch thread while another one is running'']\<rparr>
   \<and> syncRevisions 3 ''p3'' ''Tune'' [''r9''] busyApp =
     busyApp\<lparr>debugLog :=
       [''Warning: attempt to start a revision sync thread while another one is running'']\<rparr>
   \<and> cloneProject 3 ''p3'' busyApp =
     busyApp\<lparr>debugLog :=
       [''Warning: attempt to start a project clone thread while another one is running'']\<rparr>"
proof -
  have "\<exists>t\<in>set (requestThreads busyApp). isThreadRunning t \<and> kind t = RevisionsSyncThread"
    by (simp add: busyApp_def)
  moreover have "\<exists>t\<in>set (requestThreads busyApp). isThreadRunning t \<and> kind t = ProjectCloneThread"
    by (simp add: busyApp_def)
  moreover have "debugLog busyApp = []"
    by (simp add: busyApp_def)
  ultimately show ?thesis
    using start_dropped_while_running [of busyApp 3 "''p3''" "''Tune''" "[''r9'']"]
    by simp
qed

subsection \<open>Cancellation\<close>

lemma cancel_cases:
  "((\<forall>t\<in>set (requestThreads s). \<not> (isThreadRunning t \<and> kind t = k)) \<longrightarrow>
      (case getRunningThreadFor k s of Some thread \<Rightarrow> signalThreadShouldExit thread s | None \<Rightarrow> s) = s)
   \<and> ((\<exists>t\<in>set (requestThreads s). isThreadRunning t \<and> kind t = k) \<longrightarrow>
      (\<exists>i<length (requestThreads s).
         isThreadRunning (requestThreads s ! i) \<and> kind (requestThreads s ! i) = k
         \<and> (case getRunningThreadFor k s of Some thread \<Rightarrow> signalThreadShouldExit thread s | None \<Rightarrow> s) =
             s\<lparr>requestThreads :=
                 (requestThreads s)[i := (requestThreads s ! i)\<lparr>threadShouldExit := True\<rparr>]\<rparr>))"
proof (intro conjI impI)
  assume "\<forall>t\<in>set (requestThreads s). \<not> (isThreadRunning t \<and> kind t = k)"
  then have "getRunningThreadFor k s = None"
    by (simp add: getRunningThreadFor_def findThread_None)
  then show "(case getRunningThreadFor k s of Some thread \<Rightarrow> signalThreadShouldExit thread s | None \<Rightarrow> s) = s"
    by simp
next
  assume "\<exists>t\<in>set (requestThreads s). isThreadRunning t \<and> kind t = k"
  then obtain i where i: "getRunningThreadFor k s = Some i"
    using getRunningThreadFor_running by blast
  then have p: "i < length (requestThreads s)"
      "isThreadRunning (requestThreads s ! i)" "kind (requestThreads s ! i) = k"
    using findThread_Some [of "\<lambda>t. isThreadRunning t \<and> kind t = k" "requestThreads s" i]
    by (simp_all add: getRunningThreadFor_def)
  then show "\<exists>i<length (requestThreads s).
         isThreadRunning (requestThreads s ! i) \<and> kind (requestThreads s ! i) = k
         \<and> (case getRunningThreadFor k s of Some thread \<Rightarrow> signalThreadShouldExit thread s | None \<Rightarrow> s) =
             s\<lparr>requestThreads :=
                 (requestThreads s)[i := (requestThreads s ! i)\<lparr>threadShouldExit := True\<rparr>]\<rparr>"
    using i by (auto simp: signalThreadShouldExit_def updThread_def)
qed

lemma cancel_keeps_running:
  "map isThreadRunning
     (requestThreads (case getRunningThreadFor k s of
                        Some thread \<Rightarrow> signalThreadShouldExit thread s | None \<Rightarrow> s))
   = map isThreadRunning (requestThreads s)"
  by (cases "getRunningThreadFor k s")
    (simp_all add: signalThreadShouldExit_def updThread_def map_update list_update_same_conv)

text \<open>
  C7: \<open>cancelSyncRevisions\<close> and \<open>cancelCloneProject\<close> do nothing when no thread of
  their class is running. When one is, the exit flag of one running thread of that class
  is raised and nothing else changes; in either case every thread that was running is
  still running afterwards, so the thread is asked to stop, not stopped.
\<close>

theorem cancel_signals_running_thread:
  "((\<forall>t\<in>set (requestThreads s). \<not> (isThreadRunning t \<and> kind t = RevisionsSyncThread)) \<longrightarrow>
      cancelSyncRevisions s = s)
   \<and> ((\<exists>t\<in>set (requestThreads s). isThreadRunning t \<and> kind t = RevisionsSyncThread) \<longrightarrow>
      (\<exists>i<length (requestThreads s).
         isThreadRunning (requestThreads s ! i) \<and> kind (requestThreads s ! i) = RevisionsSyncThread
         \<and> cancelSyncRevisions s =
             s\<lparr>requestThreads :=
                 (requestThreads s)[i := (requestThreads s ! i)\<lparr>threadShouldExit := True\<rparr>]\<rparr>))
   \<and> ((\<forall>t\<in>set (requestThreads s). \<not> (isThreadRunning t \<and> kind t = ProjectCloneThread)) \<longrightarrow>
      cancelCloneProject s = s)
   \<and> ((\<exists>t\<in>set (requestThreads s). isThreadRunning t \<and> kind t = ProjectCloneThread) \<longrightarrow>
      (\<exists>i<length (requestThreads s).
         isThreadRunning (requestThreads s ! i) \<and> kind (requestThreads s ! i) = ProjectCloneThread
         \<and> cancelCloneProject s =
             s\<lparr>requestThreads :=
                 (requestThreads s)[i := (requestThreads s ! i)\<lparr>threadShouldExit := True\<rparr>]\<rparr>))
   \<and> map isThreadRunning (requestThreads (cancelSyncRevisions s)) = map isThreadRunning (requestThreads s)
   \<and> map isThreadRunning (requestThreads (cancelCloneProject s)) = map isThreadRunning (requestThreads s)"
  unfolding cancelSyncRevisions_def cancelCloneProject_def
  using cancel_cases [where s = s and k = RevisionsSyncThread]
    cancel_cases [where s = s and k = ProjectCloneThread]
    cancel_keeps_running [where s = s and k = RevisionsSyncThread]
    cancel_keeps_running [where s = s and k = ProjectCloneThread]
  by simp

theorem cancel_signals_running_thread_witness:
  "cancelSyncRevisions idleApp = idleApp
   \<and> cancelCloneProject idleApp = idleApp
   \<and> map threadShouldExit (requestThreads (cancelSyncRevisions busyApp)) = [True, False, False]
   \<and> map threadShouldExit (requestThreads (cancelCloneProject busyApp)) = [False, True, False]
   \<and> map isThreadRunning (requestThreads (cancelSyncRevisions busyApp)) = [True, True, False]
   \<and> map isThreadRunning (requestThreads (cancelCloneProject busyApp)) = [True, True, False]"
proof -
  have idle: "\<forall>t\<in>set (requestThreads idleApp). \<not> (isThreadRunning t \<and> kind t = RevisionsSyncThread)"
    "\<forall>t\<in>set (requestThreads idleApp). \<not> (isThreadRunning t \<and> kind t = ProjectCloneThread)"
    by (simp_all add: idleApp_def)
  have busy: "\<exists>t\<in>set (requestThreads busyApp). isThreadRunning t \<and> kind t = RevisionsSyncThread"
    "\<exists>t\<in>set (requestThreads busyApp). isThreadRunning t \<and> kind t = ProjectCloneThread"
    by (simp_all add: busyApp_def)
  from idle cancel_signals_running_thread [of idleApp]
  have a: "cancelSyncRevisions idleApp = idleApp" "cancelCloneProject idleApp = idleApp"
    by blast+
  from busy cancel_signals_running_thread [of busyApp]
  obtain i j where
    i: "i < length (requestThreads busyApp)"
      "isThreadRunning (requestThreads busyApp ! i)" "kind (requestThreads busyApp ! i) = RevisionsSyncThread"
      "cancelSyncRevisions busyApp =
         busyApp\<lparr>requestThreads :=
           (requestThreads busyApp)[i := (requestThreads busyApp ! i)\<lparr>threadShouldExit := True\<rparr>]\<rparr>"
    and j: "j < length (requestThreads busyApp)"
      "isThreadRunning (requestThreads busyApp ! j)" "kind (requestThreads busyApp ! j) = ProjectCloneThread"
      "cancelCloneProject busyApp =
         busyApp\<lparr>requestThreads :=
           (requestThreads busyApp)[j := (requestThreads busyApp ! j)\<lparr>threadShouldExit := True\<rparr>]\<rparr>"
    by blast
  from i(1,3) have "i = 0"
    by (auto simp: busyApp_def less_Suc_eq nth_Cons split: nat.splits)
  moreover from j(1,3) have "j = 1"
    by (auto simp: busyApp_def less_Suc_eq nth_Cons split: nat.splits)
  ultimately show ?thesis
    using a i(4) j(4) by (simp add: busyApp_def)
qed

subsection \<open>Failures\<close>

text \<open>
  C5, as the code has it: a failed revision sync and a failed project clone hide the
  modal component, show the first error string of the list as a tooltip when the list
  has one (and no tooltip for an empty list), and show the failure sign; a failed updates
  check writes the first error string (an empty one for an empty list) to the debug
  output and leaves the layout alone.
\<close>

theorem failure_first_error_surfaced:
  "tooltips (onSyncFailed (e # es) s) = tooltips s @ [e]
   \<and> tooltips (onSyncFailed [] s) = tooltips s
   \<and> modalComponent (onSyncFailed errors s) = Some FailTooltip
   \<and> tooltips (onCloneFailed (e # es) projectId s) = tooltips s @ [e]
   \<and> tooltips (onCloneFailed [] projectId s) = tooltips s
   \<and> modalComponent (onCloneFailed errors projectId s) = Some FailTooltip
   \<and> onUpdatesCheckFailed (e # es) s = s\<lparr>debugLog := debugLog s @ [''onUpdatesCheckFailed: '' @ e]\<rparr>
   \<and> onUpdatesCheckFailed [] s = s\<lparr>debugLog := debugLog s @ [''onUpdatesCheckFailed: '']\<rparr>"
  by (simp add: onSyncFailed_def onCloneFailed_def onUpdatesCheckFailed_def getFirst_def
      hideModalComponentIfAny_def showTooltip_def showModalComponentUnowned_def
      unloadProject_def DBG_def Let_def)

text \<open>
  The claim as stated fails for the updates check: after a failed updates check with one
  error string no tooltip has been shown and no modal component is up.
\<close>

theorem updates_check_failure_not_surfaced:
  "tooltips (onUpdatesCheckFailed [''connection refused''] idleApp) = []
   \<and> modalComponent (onUpdatesCheckFailed [''connection refused''] idleApp) = None
   \<and> debugLog (onUpdatesCheckFailed [''connection refused''] idleApp)
       = [''onUpdatesCheckFailed: connection refused'']"
  by (simp add: onUpdatesCheckFailed_def getFirst_def DBG_def idleApp_def)

text \<open>
  C6: whenever a project clone fails, after the handler the project of the given id is
  not loaded and has no local copy; the other projects and all remote copies are as
  before.
\<close>

theorem clone_failure_cleans_up:
  "projectId \<notin> loadedProjects (onCloneFailed errors projectId s)
   \<and> projectId \<notin> localProjects (onCloneFailed errors projectId s)
   \<and> loadedProjects (onCloneFailed errors projectId s) = loadedProjects s - {projectId}
   \<and> localProjects (onCloneFailed errors projectId s) = localProjects s - {projectId}
   \<and> remoteProjects (onCloneFailed errors projectId s) = remoteProjects s"
  by (simp add: onCloneFailed_def hideModalComponentIfAny_def showTooltip_def
      showModalComponentUnowned_def unloadProject_def Let_def)

theorem clone_failure_cleans_up_witness:
  "loadedProjects (onCloneFailed [''network down''] ''p2'' busyApp) = {''p1''}
   \<and> localProjects (onCloneFailed [''network down''] ''p2'' busyApp) = {''p1''}
   \<and> remoteProjects (onCloneFailed [''network down''] ''p2'' busyApp) = {''p1'', ''p2''}
   \<and> localProjects (onCloneFailed [] ''p2'' (busyApp\<lparr>loadedProjects := {''p1''}\<rparr>)) = {''p1''}"
  using clone_failure_cleans_up [of "''p2''" "[''network down'']" busyApp]
    clone_failure_cleans_up [of "''p2''" "[]" "busyApp\<lparr>loadedProjects := {''p1''}\<rparr>"]
  by (auto simp: busyApp_def)

subsection \<open>The random delay\<close>

lemma scaled_upper_half:
  fixes r :: "32 word"
  shows "unat (ucast (drop_bit 32 ((ucast r :: 64 word) * 5)) :: 32 word) < 5"
proof -
  have r: "unat r < 2 ^ 32" using unsigned_less [of r] by simp
  have "unat ((ucast r :: 64 word) * 5) = unat r * 5"
  proof -
    have "unat ((ucast r :: 64 word) * 5) = (unat (ucast r :: 64 word) * unat (5 :: 64 word)) mod 2 ^ 64"
      by (simp add: unat_word_ariths)
    also have "\<dots> = (unat r * 5) mod 2 ^ 64"
    proof -
      have "take_bit 64 (unat r) = unat r"
        using r by (simp add: take_bit_nat_eq_self)
      then show ?thesis by (simp add: unsigned_ucast_eq)
    qed
    also have "\<dots> = unat r * 5" using r by simp
    finally show ?thesis .
  qed
  then have m: "unat ((ucast r :: 64 word) * 5) = unat r * 5" .
  have "unat (drop_bit 32 ((ucast r :: 64 word) * 5)) = drop_bit 32 (unat ((ucast r :: 64 word) * 5))"
    by (rule unat_drop_bit_eq)
  also have "\<dots> = drop_bit 32 (unat r * 5)"
    by (simp only: m)
  also have "\<dots> = unat r * 5 div 2 ^ 32"
    by (simp only: drop_bit_eq_div)
  finally have "unat (drop_bit 32 ((ucast r :: 64 word) * 5)) = unat r * 5 div 2 ^ 32" .
  moreover have "unat r * 5 div 2 ^ 32 < 5" using r by simp
  ultimately have "unat (drop_bit 32 ((ucast r :: 64 word) * 5)) < 5" by simp
  moreover have "unat (ucast (drop_bit 32 ((ucast r :: 64 word) * 5)) :: 32 word)
      \<le> unat (drop_bit 32 ((ucast r :: 64 word) * 5))"
    by (simp add: unsigned_ucast_eq take_bit_eq_mod)
  ultimately show ?thesis by simp
qed

lemma nextIntBelow_5: "unat (fst (nextIntBelow 5 seed)) < 5"
  using scaled_upper_half [of "fst (nextInt seed)"]
  by (simp add: nextIntBelow_def split_beta)

lemma delay_values:
  fixes n :: "32 word"
  assumes "unat n < 5"
  shows "n * 1000 \<in> {0, 1000, 2000, 3000, 4000}"
proof -
  from assms consider "unat n = 0" | "unat n = 1" | "unat n = 2" | "unat n = 3" | "unat n = 4"
    by atomize_elim arith
  then consider "n = 0" | "n = 1" | "n = 2" | "n = 3" | "n = 4"
    by cases (simp_all add: word_unat_eq_iff)
  then show ?thesis by cases simp_all
qed

subsection \<open>Starting one resource request\<close>

lemma schedule_step:
  assumes "prepareResourceRequestThread s = (thread, s1)"
  shows "\<exists>x. isThreadRunning x \<and> kind x = RequestResourceThread \<and> task x = RequestResource t d
     \<and> requestResource thread t d s1 = s\<lparr>requestThreads := requestThreads (requestResource thread t d s1)\<rparr>
     \<and> ((thread < length (requestThreads s) \<and> \<not> isThreadRunning (requestThreads s ! thread)
           \<and> requestThreads (requestResource thread t d s1) = (requestThreads s)[thread := x])
         \<or> (thread = length (requestThreads s)
           \<and> requestThreads (requestResource thread t d s1) = requestThreads s @ [x]))"
proof (cases "findThread (\<lambda>t. \<not> isThreadRunning t \<and> kind t = RequestResourceThread) (requestThreads s)")
  case None
  with assms have "thread = length (requestThreads s)"
    and "s1 = setCallback (length (requestThreads s)) OnRequestResourceOk
           (s\<lparr>requestThreads := requestThreads s @ [newThread RequestResourceThread]\<rparr>)"
    by (auto simp: prepareResourceRequestThread_def getNewThreadFor_def)
  then show ?thesis
    by (simp add: requestResource_def startThread_def setCallback_def updThread_def newThread_def)
next
  case (Some i)
  from findThread_Some [OF Some]
  have i: "i < length (requestThreads s)" "\<not> isThreadRunning (requestThreads s ! i)"
    "kind (requestThreads s ! i) = RequestResourceThread"
    by simp_all
  from Some assms have "thread = i" and "s1 = setCallback i OnRequestResourceOk s"
    by (auto simp: prepareResourceRequestThread_def getNewThreadFor_def)
  with i show ?thesis
    by (intro exI [of _ "(requestThreads s ! i)
          \<lparr>callbacks := insert OnRequestResourceOk (callbacks (requestThreads s ! i)),
           isThreadRunning := True, threadShouldExit := False, task := RequestResource t d\<rparr>"])
      (simp add: requestResource_def startThread_def setCallback_def updThread_def)
qed

lemma filter_update_count:
  "i < length xs \<Longrightarrow> \<not> P (xs ! i) \<Longrightarrow>
     length (filter P (xs[i := x])) = length (filter P xs) + (if P x then 1 else 0)"
proof (induction xs arbitrary: i)
  case Nil
  then show ?case by simp
next
  case (Cons a xs)
  then show ?case by (cases i) auto
qed

lemma schedule_step_pending:
  assumes "prepareResourceRequestThread s = (thread, s1)"
  shows "pendingRequests u (requestResource thread t d s1)
       = pendingRequests u s + (if u = t then 1 else 0)"
proof -
  from schedule_step [OF assms, of t d] obtain x where
    x: "isThreadRunning x" "kind x = RequestResourceThread" "task x = RequestResource t d"
    and c: "(thread < length (requestThreads s) \<and> \<not> isThreadRunning (requestThreads s ! thread)
           \<and> requestThreads (requestResource thread t d s1) = (requestThreads s)[thread := x])
         \<or> (thread = length (requestThreads s)
           \<and> requestThreads (requestResource thread t d s1) = requestThreads s @ [x])"
    by blast
  from c show ?thesis
  proof
    assume a: "thread < length (requestThreads s) \<and> \<not> isThreadRunning (requestThreads s ! thread)
           \<and> requestThreads (requestResource thread t d s1) = (requestThreads s)[thread := x]"
    then show ?thesis
      using x by (auto simp: pendingRequests_def filter_update_count)
  next
    assume "thread = length (requestThreads s)
           \<and> requestThreads (requestResource thread t d s1) = requestThreads s @ [x]"
    then show ?thesis
      using x by (auto simp: pendingRequests_def)
  qed
qed

lemma schedule_step_frame:
  assumes "prepareResourceRequestThread s = (thread, s1)"
  shows "debugLog (requestResource thread t d s1) = debugLog s"
    "lastUpdatesInfo (requestResource thread t d s1) = lastUpdatesInfo s"
    "tooltips (requestResource thread t d s1) = tooltips s"
    "modalComponent (requestResource thread t d s1) = modalComponent s"
proof -
  from schedule_step [OF assms, of t d]
  have e: "requestResource thread t d s1 = s\<lparr>requestThreads := requestThreads (requestResource thread t d s1)\<rparr>"
    by blast
  show "debugLog (requestResource thread t d s1) = debugLog s" by (subst e) simp
  show "lastUpdatesInfo (requestResource thread t d s1) = lastUpdatesInfo s" by (subst e) simp
  show "tooltips (requestResource thread t d s1) = tooltips s" by (subst e) simp
  show "modalComponent (requestResource thread t d s1) = modalComponent s" by (subst e) simp
qed

lemma resourcesLoop_pending:
  "pendingRequests u (snd (snd (resourcesLoop lastInfo rs (r, flag, s))))
     = pendingRequests u s
       + length (filter (\<lambda>x. getType x = u \<and> resourceSeemsOutdated lastInfo x) rs)"
proof (induction rs arbitrary: r flag s)
  case Nil
  show ?case by simp
next
  case (Cons a rs)
  show ?case
  proof (cases "resourceSeemsOutdated lastInfo a")
    case False
    then show ?thesis by (simp add: Cons.IH)
  next
    case True
    obtain thread s1 where p: "prepareResourceRequestThread s = (thread, s1)"
      by (cases "prepareResourceRequestThread s")
    obtain n r' where n: "nextIntBelow 5 r = (n, r')"
      by (cases "nextIntBelow 5 r")
    have "resourcesLoop lastInfo (a # rs) (r, flag, s)
        = resourcesLoop lastInfo rs (r', False, requestResource thread (getType a) (n * 1000) s1)"
      using True p n by simp
    then show ?thesis
      using True by (auto simp add: Cons.IH schedule_step_pending [OF p])
  qed
qed

lemma resourcesLoop_flag:
  "fst (snd (resourcesLoop lastInfo rs (r, flag, s)))
     = (flag \<and> filter (resourceSeemsOutdated lastInfo) rs = [])"
proof (induction rs arbitrary: r flag s)
  case Nil
  show ?case by simp
next
  case (Cons a rs)
  show ?case
    by (cases "resourceSeemsOutdated lastInfo a") (simp_all add: Cons.IH split_beta)
qed

lemma resourcesLoop_frame:
  "debugLog (snd (snd (resourcesLoop lastInfo rs (r, flag, s)))) = debugLog s"
proof (induction rs arbitrary: r flag s)
  case Nil
  show ?case by simp
next
  case (Cons a rs)
  show ?case
  proof (cases "resourceSeemsOutdated lastInfo a")
    case False
    then show ?thesis by (simp add: Cons.IH)
  next
    case True
    obtain thread s1 where p: "prepareResourceRequestThread s = (thread, s1)"
      by (cases "prepareResourceRequestThread s")
    obtain n r' where n: "nextIntBelow 5 r = (n, r')"
      by (cases "nextIntBelow 5 r")
    show ?thesis
      using True p n by (simp add: Cons.IH schedule_step_frame [OF p])
  qed
qed


text \<open>
  C3: after the updates check handler, for every resource type the number of resource
  requests under way has grown by the number of descriptors of that type in the new
  manifest whose hash differs from the hash the cached manifest stores for the type: one
  request per such descriptor and none for the others. The handler reports that all is
  up to date exactly when there is no such descriptor, and the new manifest replaces the
  cached one.
\<close>

theorem updates_check_flags_exactly_outdated:
  "pendingRequests t (onUpdatesCheckOk seed info s)
     = pendingRequests t s
       + length (filter (\<lambda>r. getType r = t
                    \<and> storedHash (lastUpdatesInfo s) (getType r) \<noteq> Some (getHash r))
                  (getResources info))
   \<and> debugLog (onUpdatesCheckOk seed info s)
     = debugLog s
       @ (if filter (\<lambda>r. storedHash (lastUpdatesInfo s) (getType r) \<noteq> Some (getHash r))
               (getResources info) = []
          then [''All resources are up to date''] else [])
   \<and> lastUpdatesInfo (onUpdatesCheckOk seed info s) = info"
proof -
  let ?l = "resourcesLoop (lastUpdatesInfo s) (getResources info) (seed, True, s)"
  have o: "resourceSeemsOutdated (lastUpdatesInfo s)
      = (\<lambda>r. storedHash (lastUpdatesInfo s) (getType r) \<noteq> Some (getHash r))"
    by (rule ext) (simp add: resourceSeemsOutdated_def)
  have h: "onUpdatesCheckOk seed info s
      = (if fst (snd ?l) then DBG ''All resources are up to date'' (snd (snd ?l)) else snd (snd ?l))
          \<lparr>lastUpdatesInfo := info\<rparr>"
    by (simp add: onUpdatesCheckOk_def split_beta Let_def)
  have p: "pendingRequests t (snd (snd ?l)) = pendingRequests t s
       + length (filter (\<lambda>x. getType x = t \<and> resourceSeemsOutdated (lastUpdatesInfo s) x) (getResources info))"
    by (rule resourcesLoop_pending)
  have f: "fst (snd ?l) = (filter (resourceSeemsOutdated (lastUpdatesInfo s)) (getResources info) = [])"
    by (simp add: resourcesLoop_flag)
  have d: "debugLog (snd (snd ?l)) = debugLog s"
    by (rule resourcesLoop_frame)
  show ?thesis
    unfolding h using p f d
    by (simp add: o pendingRequests_def DBG_def)
qed

theorem updates_check_flags_exactly_outdated_witness:
  "pendingRequests ''scales'' (onUpdatesCheckOk 12345678901234 sampleInfo busyApp) = 0
   \<and> pendingRequests ''chords'' (onUpdatesCheckOk 12345678901234 sampleInfo busyApp) = 1
   \<and> pendingRequests ''temperaments'' (onUpdatesCheckOk 12345678901234 sampleInfo busyApp) = 1
   \<and> debugLog (onUpdatesCheckOk 12345678901234 sampleInfo busyApp) = []
   \<and> debugLog (onUpdatesCheckOk 12345678901234 (lastUpdatesInfo busyApp) busyApp)
       = [''All resources are up to date'']"
proof -
  have a: "pendingRequests ''scales'' busyApp
       + length (filter (\<lambda>r. getType r = ''scales''
                    \<and> storedHash (lastUpdatesInfo busyApp) (getType r) \<noteq> Some (getHash r))
                  (getResources sampleInfo)) = 0"
    by code_simp
  have b: "pendingRequests ''chords'' busyApp
       + length (filter (\<lambda>r. getType r = ''chords''
                    \<and> storedHash (lastUpdatesInfo busyApp) (getType r) \<noteq> Some (getHash r))
                  (getResources sampleInfo)) = 1"
    by code_simp
  have c: "pendingRequests ''temperaments'' busyApp
       + length (filter (\<lambda>r. getType r = ''temperaments''
                    \<and> storedHash (lastUpdatesInfo busyApp) (getType r) \<noteq> Some (getHash r))
                  (getResources sampleInfo)) = 1"
    by code_simp
  have d: "debugLog busyApp
       @ (if filter (\<lambda>r. storedHash (lastUpdatesInfo busyApp) (getType r) \<noteq> Some (getHash r))
               (getResources sampleInfo) = []
          then [''All resources are up to date''] else []) = []"
    by code_simp
  have e: "debugLog busyApp
       @ (if filter (\<lambda>r. storedHash (lastUpdatesInfo busyApp) (getType r) \<noteq> Some (getHash r))
               (getResources (lastUpdatesInfo busyApp)) = []
          then [''All resources are up to date''] else []) = [''All resources are up to date'']"
    by code_simp
  from updates_check_flags_exactly_outdated [of "''scales''" 12345678901234 sampleInfo busyApp]
    updates_check_flags_exactly_outdated [of "''chords''" 12345678901234 sampleInfo busyApp]
    updates_check_flags_exactly_outdated [of "''temperaments''" 12345678901234 sampleInfo busyApp]
    updates_check_flags_exactly_outdated [of "''scales''" 12345678901234 "lastUpdatesInfo busyApp" busyApp]
  show ?thesis
    by (simp only: a b c d e)
qed


subsection \<open>The threads the handler starts\<close>

lemma length_drawnDelays: "length (drawnDelays r n) = n"
  by (induction n arbitrary: r) simp_all

lemma drawnDelays_values:
  "k < n \<Longrightarrow> drawnDelays r n ! k \<in> {0, 1000, 2000, 3000, 4000}"
proof (induction n arbitrary: r k)
  case 0
  then show ?case by simp
next
  case (Suc n)
  show ?case
  proof (cases k)
    case 0
    have "fst (nextIntBelow 5 r) * 1000 \<in> {0, 1000, 2000, 3000, 4000}"
      by (rule delay_values [OF nextIntBelow_5])
    with 0 show ?thesis by simp
  next
    case (Suc k')
    with Suc.prems have "k' < n" by simp
    from Suc.IH [OF this, of "snd (nextIntBelow 5 r)"] Suc show ?thesis by simp
  qed
qed

lemma delay_sint_range:
  fixes d :: "32 word"
  shows "d \<in> {0, 1000, 2000, 3000, 4000} \<Longrightarrow> 0 \<le> sint d \<and> sint d < 5000"
  by auto

lemma delays_attained:
  "range (\<lambda>seed. fst (nextIntBelow 5 seed) * 1000) = {0, 1000, 2000, 3000, 4000}"
proof
  show "range (\<lambda>seed. fst (nextIntBelow 5 seed) * 1000) \<subseteq> {0, 1000, 2000, 3000, 4000}"
    using delay_values [OF nextIntBelow_5] by blast
next
  have "fst (nextIntBelow 5 1) * 1000 = 0" by code_simp
  moreover have "fst (nextIntBelow 5 16528181232892) * 1000 = 1000" by code_simp
  moreover have "fst (nextIntBelow 5 99999999999) * 1000 = 2000" by code_simp
  moreover have "fst (nextIntBelow 5 12345678901234) * 1000 = 3000" by code_simp
  moreover have "fst (nextIntBelow 5 (- 5)) * 1000 = 4000" by code_simp
  ultimately show "{0, 1000, 2000, 3000, 4000} \<subseteq> range (\<lambda>seed. fst (nextIntBelow 5 seed) * 1000)"
    by (auto simp: image_iff)
qed

lemma schedule_step_index:
  assumes "prepareResourceRequestThread s = (thread, s1)"
  shows "thread < length (requestThreads (requestResource thread t d s1))"
    and "isThreadRunning (requestThreads (requestResource thread t d s1) ! thread)"
    and "task (requestThreads (requestResource thread t d s1) ! thread) = RequestResource t d"
    and "thread < length (requestThreads s) \<longrightarrow> \<not> isThreadRunning (requestThreads s ! thread)"
    and "length (requestThreads s) \<le> length (requestThreads (requestResource thread t d s1))"
    and "\<forall>i<length (requestThreads (requestResource thread t d s1)). i \<noteq> thread \<longrightarrow>
           i < length (requestThreads s)
           \<and> requestThreads (requestResource thread t d s1) ! i = requestThreads s ! i"
proof -
  let ?ts = "requestThreads s"
  let ?ts' = "requestThreads (requestResource thread t d s1)"
  from schedule_step [OF assms, of t d] obtain x where
    x: "isThreadRunning x" "task x = RequestResource t d"
    and c: "(thread < length ?ts \<and> \<not> isThreadRunning (?ts ! thread) \<and> ?ts' = ?ts[thread := x])
         \<or> (thread = length ?ts \<and> ?ts' = ?ts @ [x])"
    by blast
  from c have all: "thread < length ?ts' \<and> ?ts' ! thread = x
      \<and> (thread < length ?ts \<longrightarrow> \<not> isThreadRunning (?ts ! thread))
      \<and> length ?ts \<le> length ?ts'
      \<and> (\<forall>i<length ?ts'. i \<noteq> thread \<longrightarrow> i < length ?ts \<and> ?ts' ! i = ?ts ! i)"
  proof
    assume u: "thread < length ?ts \<and> \<not> isThreadRunning (?ts ! thread) \<and> ?ts' = ?ts[thread := x]"
    then have e: "?ts' = ?ts[thread := x]" by simp
    show ?thesis using u unfolding e by simp
  next
    assume u: "thread = length ?ts \<and> ?ts' = ?ts @ [x]"
    from u have t: "thread = length ?ts" by (rule conjunct1)
    from u have e: "?ts' = ?ts @ [x]" by (rule conjunct2)
    show ?thesis unfolding e using t by (auto simp: nth_append)
  qed
  from all x show "thread < length ?ts'" "isThreadRunning (?ts' ! thread)"
    "task (?ts' ! thread) = RequestResource t d"
    "thread < length ?ts \<longrightarrow> \<not> isThreadRunning (?ts ! thread)"
    "length ?ts \<le> length ?ts'"
    "\<forall>i<length ?ts'. i \<noteq> thread \<longrightarrow> i < length ?ts \<and> ?ts' ! i = ?ts ! i"
    by simp_all
qed

lemma resourcesLoop_startedRequests:
  "\<exists>threads.
     startedRequests (requestThreads s)
       (requestThreads (snd (snd (resourcesLoop lastInfo rs (r, flag, s)))))
       threads (filter (resourceSeemsOutdated lastInfo) rs)
       (drawnDelays r (length (filter (resourceSeemsOutdated lastInfo) rs)))"
proof (induction rs arbitrary: r flag s)
  case Nil
  show ?case by (simp add: startedRequests_def)
next
  case (Cons a rs)
  show ?case
  proof (cases "resourceSeemsOutdated lastInfo a")
    case False
    with Cons.IH [where r = r and flag = flag and s = s] show ?thesis by simp
  next
    case True
    let ?F = "filter (resourceSeemsOutdated lastInfo) rs"
    obtain j s1 where p: "prepareResourceRequestThread s = (j, s1)"
      by (cases "prepareResourceRequestThread s")
    let ?v = "fst (nextIntBelow 5 r)"
    let ?r' = "snd (nextIntBelow 5 r)"
    let ?s2 = "requestResource j (getType a) (?v * 1000) s1"
    let ?ts = "requestThreads s"
    let ?ts2 = "requestThreads ?s2"
    let ?ts' = "requestThreads (snd (snd (resourcesLoop lastInfo rs (?r', False, ?s2))))"
    have e: "resourcesLoop lastInfo (a # rs) (r, flag, s) = resourcesLoop lastInfo rs (?r', False, ?s2)"
      using True p by (simp add: split_beta)
    note st = schedule_step_index(1) [OF p, of "getType a" "?v * 1000"]
      schedule_step_index(2) [OF p, of "getType a" "?v * 1000"]
      schedule_step_index(3) [OF p, of "getType a" "?v * 1000"]
      schedule_step_index(4) [OF p]
      schedule_step_index(5) [OF p, of "getType a" "?v * 1000"]
      schedule_step_index(6) [OF p, of "getType a" "?v * 1000"]
    from Cons.IH [where r = ?r' and flag = False and s = ?s2] obtain is' where
      ih: "startedRequests ?ts2 ?ts' is' ?F (drawnDelays ?r' (length ?F))"
      by blast
    then have len: "length is' = length ?F" and dist: "distinct is'" and mono: "length ?ts2 \<le> length ?ts'"
      and at: "\<And>k. k < length ?F \<Longrightarrow>
            is' ! k < length ?ts'
            \<and> (is' ! k < length ?ts2 \<longrightarrow> \<not> isThreadRunning (?ts2 ! (is' ! k)))
            \<and> isThreadRunning (?ts' ! (is' ! k))
            \<and> task (?ts' ! (is' ! k)) = RequestResource (getType (?F ! k)) (drawnDelays ?r' (length ?F) ! k)"
      and rest: "\<And>i. i < length ?ts' \<Longrightarrow> i \<notin> set is' \<Longrightarrow> i < length ?ts2 \<and> ?ts' ! i = ?ts2 ! i"
      by (simp_all add: startedRequests_def)
    have fresh: "j \<notin> set is'"
    proof
      assume "j \<in> set is'"
      then obtain k where k: "k < length is'" "is' ! k = j"
        by (auto simp: in_set_conv_nth)
      with len at [of k] st(1) have "\<not> isThreadRunning (?ts2 ! j)" by simp
      with st(2) show False by simp
    qed
    have j': "j < length ?ts'" using st(1) mono by simp
    with fresh rest [of j] have same: "?ts' ! j = ?ts2 ! j" by simp
    have "startedRequests ?ts ?ts' (j # is') (a # ?F) ((?v * 1000) # drawnDelays ?r' (length ?F))"
      unfolding startedRequests_def
    proof (intro conjI allI impI)
      show "length (j # is') = length (a # ?F)" using len by simp
      show "distinct (j # is')" using dist fresh by simp
      show "length ?ts \<le> length ?ts'" using st(5) mono by simp
    next
      fix k assume k: "k < length (a # ?F)"
      show "(j # is') ! k < length ?ts'"
        using k j' at by (cases k) simp_all
      show "isThreadRunning (?ts' ! ((j # is') ! k))"
        using k same st(2) at by (cases k) simp_all
      show "task (?ts' ! ((j # is') ! k))
          = RequestResource (getType ((a # ?F) ! k)) (((?v * 1000) # drawnDelays ?r' (length ?F)) ! k)"
        using k same st(3) at by (cases k) simp_all
    next
      fix k assume k: "k < length (a # ?F)" and b: "(j # is') ! k < length ?ts"
      show "\<not> isThreadRunning (?ts ! ((j # is') ! k))"
      proof (cases k)
        case 0
        with b st(4) show ?thesis by simp
      next
        case (Suc k')
        with k have k': "k' < length ?F" by simp
        from Suc b have b': "is' ! k' < length ?ts" by simp
        with st(5) have "is' ! k' < length ?ts2" by simp
        with at [OF k'] have nr: "\<not> isThreadRunning (?ts2 ! (is' ! k'))" by simp
        from k' len have "is' ! k' \<in> set is'" by simp
        with fresh have "is' ! k' \<noteq> j" by auto
        with st(6) \<open>is' ! k' < length ?ts2\<close> have "?ts2 ! (is' ! k') = ?ts ! (is' ! k')" by simp
        with nr Suc show ?thesis by simp
      qed
    next
      fix i assume i: "i < length ?ts'" and n: "i \<notin> set (j # is')"
      then have "i \<noteq> j" "i \<notin> set is'" by simp_all
      with rest [OF i] have a2: "i < length ?ts2" "?ts' ! i = ?ts2 ! i" by simp_all
      with st(6) \<open>i \<noteq> j\<close> have "i < length ?ts" "?ts2 ! i = ?ts ! i" by simp_all
      with a2 show "i < length ?ts" "?ts' ! i = ?ts ! i" by simp_all
    qed
    then show ?thesis
      using True unfolding e by (intro exI [of _ "j # is'"]) simp
  qed
qed


text \<open>
  C4: for every resource flagged as outdated during an updates check, in the order of the
  manifest, the handler has started one thread of its own, not running before, with the
  request for that resource, and the delay of that request is the next draw of the random
  generator times 1000: a value among 0, 1000, 2000, 3000 and 4000 milliseconds, so within
  0 to 5 seconds. Every other thread of the pool is as it was. The draws follow the
  generator from the seed it was given, and over the seeds a draw takes each of the five
  values and no other.
\<close>

theorem scheduled_delays_are_random_draws:
  "(\<exists>threads.
      length threads = length (filter (resourceSeemsOutdated (lastUpdatesInfo s)) (getResources info))
      \<and> distinct threads
      \<and> (\<forall>k<length (filter (resourceSeemsOutdated (lastUpdatesInfo s)) (getResources info)).
            threads ! k < length (requestThreads (onUpdatesCheckOk seed info s))
            \<and> (threads ! k < length (requestThreads s) \<longrightarrow>
                 \<not> isThreadRunning (requestThreads s ! (threads ! k)))
            \<and> isThreadRunning (requestThreads (onUpdatesCheckOk seed info s) ! (threads ! k))
            \<and> task (requestThreads (onUpdatesCheckOk seed info s) ! (threads ! k))
                = RequestResource
                    (getType (filter (resourceSeemsOutdated (lastUpdatesInfo s)) (getResources info) ! k))
                    (drawnDelays seed
                       (length (filter (resourceSeemsOutdated (lastUpdatesInfo s)) (getResources info))) ! k)
            \<and> drawnDelays seed
                 (length (filter (resourceSeemsOutdated (lastUpdatesInfo s)) (getResources info))) ! k
                \<in> {0, 1000, 2000, 3000, 4000}
            \<and> 0 \<le> sint (drawnDelays seed
                 (length (filter (resourceSeemsOutdated (lastUpdatesInfo s)) (getResources info))) ! k)
            \<and> sint (drawnDelays seed
                 (length (filter (resourceSeemsOutdated (lastUpdatesInfo s)) (getResources info))) ! k) < 5000)
      \<and> (\<forall>i<length (requestThreads (onUpdatesCheckOk seed info s)).
            i \<notin> set threads \<longrightarrow>
              i < length (requestThreads s)
              \<and> requestThreads (onUpdatesCheckOk seed info s) ! i = requestThreads s ! i))
   \<and> drawnDelays seed (Suc n)
       = (fst (nextIntBelow 5 seed) * 1000) # drawnDelays (snd (nextIntBelow 5 seed)) n
   \<and> range (\<lambda>seed. fst (nextIntBelow 5 seed) * 1000) = {0, 1000, 2000, 3000, 4000}"
proof (intro conjI)
  let ?F = "filter (resourceSeemsOutdated (lastUpdatesInfo s)) (getResources info)"
  let ?D = "drawnDelays seed (length ?F)"
  let ?ts' = "requestThreads (snd (snd (resourcesLoop (lastUpdatesInfo s) (getResources info) (seed, True, s))))"
  have h: "requestThreads (onUpdatesCheckOk seed info s) = ?ts'"
    by (simp add: onUpdatesCheckOk_def split_beta Let_def DBG_def)
  from resourcesLoop_startedRequests
    [where s = s and lastInfo = "lastUpdatesInfo s" and rs = "getResources info" and r = seed and flag = True]
  obtain threads where t: "startedRequests (requestThreads s) ?ts' threads ?F ?D"
    by blast
  have d: "?D ! k \<in> {0, 1000, 2000, 3000, 4000} \<and> 0 \<le> sint (?D ! k) \<and> sint (?D ! k) < 5000"
    if "k < length ?F" for k
    using drawnDelays_values [OF that, of seed] delay_sint_range by blast
  show "\<exists>threads.
      length threads = length ?F
      \<and> distinct threads
      \<and> (\<forall>k<length ?F.
            threads ! k < length (requestThreads (onUpdatesCheckOk seed info s))
            \<and> (threads ! k < length (requestThreads s) \<longrightarrow>
                 \<not> isThreadRunning (requestThreads s ! (threads ! k)))
            \<and> isThreadRunning (requestThreads (onUpdatesCheckOk seed info s) ! (threads ! k))
            \<and> task (requestThreads (onUpdatesCheckOk seed info s) ! (threads ! k))
                = RequestResource (getType (?F ! k)) (?D ! k)
            \<and> ?D ! k \<in> {0, 1000, 2000, 3000, 4000}
            \<and> 0 \<le> sint (?D ! k)
            \<and> sint (?D ! k) < 5000)
      \<and> (\<forall>i<length (requestThreads (onUpdatesCheckOk seed info s)).
            i \<notin> set threads \<longrightarrow>
              i < length (requestThreads s)
              \<and> requestThreads (onUpdatesCheckOk seed info s) ! i = requestThreads s ! i)"
    unfolding h using t d
    by (intro exI [of _ threads]) (simp add: startedRequests_def)
next
  show "drawnDelays seed (Suc n)
       = (fst (nextIntBelow 5 seed) * 1000) # drawnDelays (snd (nextIntBelow 5 seed)) n"
    by simp
next
  show "range (\<lambda>seed. fst (nextIntBelow 5 seed) * 1000) = {0, 1000, 2000, 3000, 4000}"
    by (rule delays_attained)
qed

theorem scheduled_delays_are_random_draws_witness:
  "\<exists>i j. i \<noteq> j
     \<and> task (requestThreads (onUpdatesCheckOk 12345678901234 sampleInfo busyApp) ! i)
         = RequestResource ''chords'' 3000
     \<and> task (requestThreads (onUpdatesCheckOk 12345678901234 sampleInfo busyApp) ! j)
         = RequestResource ''temperaments'' 0"
proof -
  have F: "filter (resourceSeemsOutdated (lastUpdatesInfo busyApp)) (getResources sampleInfo)
      = [\<lparr>getType = ''chords'', getHash = ''cc''\<rparr>, \<lparr>getType = ''temperaments'', getHash = ''dd''\<rparr>]"
    by code_simp
  have D: "drawnDelays 12345678901234 2 = [3000, 0]"
    by code_simp
  have L: "length [\<lparr>getType = ''chords'', getHash = ''cc''\<rparr>,
                   \<lparr>getType = ''temperaments'', getHash = ''dd''\<rparr>] = 2"
    by simp
  from scheduled_delays_are_random_draws
    [where s = busyApp and info = sampleInfo and seed = 12345678901234 and n = 0,
     THEN conjunct1, unfolded F L D]
  obtain threads where l: "length threads = 2" and d: "distinct threads"
    and k: "\<forall>k<2. task (requestThreads (onUpdatesCheckOk 12345678901234 sampleInfo busyApp) ! (threads ! k))
        = RequestResource
            (getType ([\<lparr>getType = ''chords'', getHash = ''cc''\<rparr>,
                       \<lparr>getType = ''temperaments'', getHash = ''dd''\<rparr>] ! k))
            ([3000, 0] ! k)"
    by blast
  from k [rule_format, of 0]
  have a: "task (requestThreads (onUpdatesCheckOk 12345678901234 sampleInfo busyApp) ! (threads ! 0))
      = RequestResource ''chords'' 3000"
    by simp
  from k [rule_format, of 1]
  have b: "task (requestThreads (onUpdatesCheckOk 12345678901234 sampleInfo busyApp) ! (threads ! 1))
      = RequestResource ''temperaments'' 0"
    by simp
  from l d have "threads ! 0 \<noteq> threads ! 1"
    by (simp add: nth_eq_iff_index_eq)
  with a b show ?thesis by blast
qed


end
